theory Spec2Isabelle
  imports Main "HOL-Library.Word"
begin

section \<open>Python values\<close>

text \<open>
  A Python \<open>str\<close> is a sequence of Unicode code points, and \<open>len\<close> and iteration count
  code points; a \<open>bytes\<close> object is a sequence of octets. Python integers are unbounded.
  An exception is a value of \<open>py_error\<close>, and a function that can raise returns
  \<open>py_error + 'a\<close>.
\<close>

type_synonym pychar = nat
type_synonym pystr = "pychar list"
type_synonym byte = "8 word"

datatype py_error =
  ValueError | IndexError | UnicodeEncodeError | UnicodeDecodeError | BinasciiError

text \<open>A string literal of the source, as code points.\<close>

definition py_str :: "string \<Rightarrow> pystr" where
  "py_str s = map of_char s"

text \<open>Sequencing of calls that can raise: the first exception ends the computation.\<close>

definition and_then :: "py_error + 'a \<Rightarrow> ('a \<Rightarrow> py_error + 'b) \<Rightarrow> py_error + 'b" where
  "and_then r f = (case r of Inl e \<Rightarrow> Inl e | Inr v \<Rightarrow> f v)"

text \<open>
  \<open>"".join(f(ch) for ch in s)\<close>: the generator is consumed from the left, and an
  exception raised by \<open>f\<close> leaves the join.
\<close>

fun join_each :: "('a \<Rightarrow> py_error + 'b) \<Rightarrow> 'a list \<Rightarrow> py_error + 'b list" where
  "join_each f [] = Inr []"
| "join_each f (x # xs) =
     (case f x of
        Inl e \<Rightarrow> Inl e
      | Inr y \<Rightarrow> (case join_each f xs of Inl e \<Rightarrow> Inl e | Inr ys \<Rightarrow> Inr (y # ys)))"

subsection \<open>The \<open>str\<close> methods the cipher calls\<close>

text \<open>
  \<open>str.lower\<close>, \<open>str.upper\<close> and \<open>str.islower\<close> belong to the interpreter and read the
  Unicode character database. The tables below are those of Basic Latin and Latin-1,
  and of the code points beyond Latin-1 whose lower case differs in length or lands in
  Basic Latin: U+0130 (capital I with dot above, lower case \<open>i\<close> followed by U+0307),
  U+212A (Kelvin sign, lower case \<open>k\<close>) and U+212B (Angstrom sign, lower case U+00E5).
  Every other code point is left as it is. In the Unicode database the code points whose
  lower case is a substring of \<open>a..z\<close> are exactly \<open>A..Z\<close>, \<open>a..z\<close> and U+212A, so the
  membership test of \<open>_shift_char\<close> is decided by these tables at every code point.
\<close>

definition char_lower :: "pychar \<Rightarrow> pystr" where
  "char_lower c =
     (if 0x41 \<le> c \<and> c \<le> 0x5A then [c + 32]
      else if 0xC0 \<le> c \<and> c \<le> 0xDE \<and> c \<noteq> 0xD7 then [c + 32]
      else if c = 0x130 then [0x69, 0x307]
      else if c = 0x212A then [0x6B]
      else if c = 0x212B then [0xE5]
      else [c])"

definition char_upper :: "pychar \<Rightarrow> pystr" where
  "char_upper c =
     (if 0x61 \<le> c \<and> c \<le> 0x7A then [c - 32]
      else if c = 0xB5 then [0x39C]
      else if c = 0xDF then [0x53, 0x53]
      else if 0xE0 \<le> c \<and> c \<le> 0xFE \<and> c \<noteq> 0xF7 then [c - 32]
      else if c = 0xFF then [0x178]
      else [c])"

definition char_is_lower :: "pychar \<Rightarrow> bool" where
  "char_is_lower c =
     ((0x61 \<le> c \<and> c \<le> 0x7A) \<or> c = 0xAA \<or> c = 0xB5 \<or> c = 0xBA
      \<or> (0xDF \<le> c \<and> c \<le> 0xFF \<and> c \<noteq> 0xF7))"

definition char_is_upper :: "pychar \<Rightarrow> bool" where
  "char_is_upper c =
     ((0x41 \<le> c \<and> c \<le> 0x5A) \<or> (0xC0 \<le> c \<and> c \<le> 0xDE \<and> c \<noteq> 0xD7)
      \<or> c = 0x130 \<or> c = 0x212A \<or> c = 0x212B)"

definition str_lower :: "pystr \<Rightarrow> pystr" where
  "str_lower s = concat (map char_lower s)"

definition str_upper :: "pystr \<Rightarrow> pystr" where
  "str_upper s = concat (map char_upper s)"

text \<open>
  \<open>s.islower()\<close>: there is a cased character, and no cased character is upper case.
\<close>

definition str_islower :: "pystr \<Rightarrow> bool" where
  "str_islower s = (list_ex char_is_lower s \<and> \<not> list_ex char_is_upper s)"

text \<open>\<open>sub in s\<close> on strings is the substring test.\<close>

fun str_contains :: "pystr \<Rightarrow> pystr \<Rightarrow> bool" where
  "str_contains [] sub = (sub = [])"
| "str_contains (x # xs) sub =
     (take (length sub) (x # xs) = sub \<or> str_contains xs sub)"

text \<open>
  \<open>s.index(sub)\<close>: the lowest position where \<open>sub\<close> starts, and \<open>ValueError\<close> when it
  starts nowhere.
\<close>

fun str_index_from :: "nat \<Rightarrow> pystr \<Rightarrow> pystr \<Rightarrow> py_error + nat" where
  "str_index_from i [] sub = (if sub = [] then Inr i else Inl ValueError)"
| "str_index_from i (x # xs) sub =
     (if take (length sub) (x # xs) = sub then Inr i
      else str_index_from (Suc i) xs sub)"

definition str_index :: "pystr \<Rightarrow> pystr \<Rightarrow> py_error + nat" where
  "str_index s sub = str_index_from 0 s sub"

text \<open>\<open>s[i]\<close>: a negative index counts from the end; out of range is \<open>IndexError\<close>.\<close>

definition str_getitem :: "pystr \<Rightarrow> int \<Rightarrow> py_error + pychar" where
  "str_getitem s i =
     (let n = int (length s); j = (if i < 0 then n + i else i)
      in if 0 \<le> j \<and> j < n then Inr (s ! nat j) else Inl IndexError)"

section \<open>The Caesar cipher (\<open>src/ciphers/caesar.py\<close>)\<close>

definition ALPHABET :: pystr where
  "ALPHABET = py_str ''abcdefghijklmnopqrstuvwxyz''"

text \<open>\<open>_shift_char\<close> of the source.\<close>

definition shift_char :: "pychar \<Rightarrow> int \<Rightarrow> py_error + pychar" where
  "shift_char ch shift =
     (if \<not> str_contains ALPHABET (str_lower [ch]) then Inr ch
      else
        let base = (if str_islower [ch] then ALPHABET else str_upper ALPHABET) in
        and_then (str_index base [ch]) (\<lambda>idx.
          let shifted = (int idx + shift) mod 26 in
          str_getitem base shifted))"

definition encrypt_caesar :: "pystr \<Rightarrow> int \<Rightarrow> py_error + pystr" where
  "encrypt_caesar plaintext shift =
     (let norm_shift = shift mod 26
      in join_each (\<lambda>ch. shift_char ch norm_shift) plaintext)"

definition decrypt_caesar :: "pystr \<Rightarrow> int \<Rightarrow> py_error + pystr" where
  "decrypt_caesar ciphertext shift =
     (let norm_shift = shift mod 26
      in join_each (\<lambda>ch. shift_char ch (- norm_shift)) ciphertext)"

section \<open>Properties of the Caesar cipher\<close>

subsection \<open>The two alphabets and the string methods on them\<close>

lemma ALPHABET_upt: "ALPHABET = [97..<123]"
  by (simp add: ALPHABET_def py_str_def upt_rec)

lemma upper_ALPHABET_upt: "str_upper [97..<123] = [65..<91]"
  by (simp add: str_upper_def char_upper_def)

lemma str_contains_single: "str_contains s [c] = (c \<in> set s)"
  by (induction s) auto

lemma str_contains_subset: "str_contains s sub \<Longrightarrow> set sub \<subseteq> set s"
proof (induction s)
  case Nil
  then show ?case by simp
next
  case (Cons x xs)
  from Cons.prems have "take (length sub) (x # xs) = sub \<or> str_contains xs sub" by simp
  then show ?case
  proof
    assume "take (length sub) (x # xs) = sub"
    then have "set sub = set (take (length sub) (x # xs))" by simp
    also have "\<dots> \<subseteq> set (x # xs)" by (rule set_take_subset)
    finally show ?thesis .
  next
    assume "str_contains xs sub"
    then show ?thesis using Cons.IH by auto
  qed
qed

lemma str_index_from_upt:
  "str_index_from i [a..<b] [ch] =
     (if a \<le> ch \<and> ch < b then Inr (i + (ch - a)) else Inl ValueError)"
proof (induction "b - a" arbitrary: a i)
  case 0
  then show ?case by simp
next
  case (Suc n)
  then have ab: "a < b" and n: "n = b - Suc a" by simp_all
  have "[a..<b] = a # [Suc a..<b]" using ab by (simp add: upt_conv_Cons)
  then show ?case using ab Suc.hyps(1) [OF n, of "Suc i"] by auto
qed

lemma str_getitem_upt:
  "0 \<le> j \<Longrightarrow> j < int (b - a) \<Longrightarrow> str_getitem [a..<b] j = Inr (a + nat j)"
  by (simp add: str_getitem_def Let_def)

subsection \<open>What \<open>_shift_char\<close> returns, by the kind of character\<close>

lemma shift_char_lower:
  assumes "97 \<le> ch" "ch \<le> 122"
  shows "shift_char ch k = Inr (97 + nat ((int (ch - 97) + k) mod 26))"
proof -
  have l: "str_lower [ch] = [ch]" using assms by (simp add: str_lower_def char_lower_def)
  have i: "str_islower [ch]" using assms
    by (simp add: str_islower_def char_is_lower_def char_is_upper_def)
  have m: "0 \<le> (int (ch - 97) + k) mod 26" "(int (ch - 97) + k) mod 26 < 26" by simp_all
  show ?thesis using assms m
    by (simp add: shift_char_def l i str_contains_single ALPHABET_upt str_index_def
        str_index_from_upt and_then_def str_getitem_upt Let_def del: upt_rec_numeral)
qed

lemma shift_char_upper:
  assumes "65 \<le> ch" "ch \<le> 90"
  shows "shift_char ch k = Inr (65 + nat ((int (ch - 65) + k) mod 26))"
proof -
  have l: "str_lower [ch] = [ch + 32]" using assms by (simp add: str_lower_def char_lower_def)
  have i: "\<not> str_islower [ch]" using assms
    by (simp add: str_islower_def char_is_lower_def char_is_upper_def)
  have m: "0 \<le> (int (ch - 65) + k) mod 26" "(int (ch - 65) + k) mod 26 < 26" by simp_all
  show ?thesis using assms m
    by (simp add: shift_char_def l i str_contains_single ALPHABET_upt upper_ALPHABET_upt
        str_index_def str_index_from_upt and_then_def str_getitem_upt Let_def
        del: upt_rec_numeral)
qed

lemma shift_char_kelvin: "shift_char 0x212A k = Inl ValueError"
  by (simp add: shift_char_def str_lower_def char_lower_def str_contains_single
      ALPHABET_upt upper_ALPHABET_upt str_islower_def char_is_lower_def char_is_upper_def
      str_index_def str_index_from_upt and_then_def Let_def del: upt_rec_numeral)

lemma shift_char_other:
  assumes "\<not> (97 \<le> ch \<and> ch \<le> 122)" "\<not> (65 \<le> ch \<and> ch \<le> 90)" "ch \<noteq> 0x212A"
  shows "shift_char ch k = Inr ch"
proof -
  have "\<not> set (str_lower [ch]) \<subseteq> set ALPHABET"
    using assms
    by (auto simp add: str_lower_def char_lower_def ALPHABET_upt
         simp del: upt_rec_numeral split: if_splits)
  then have "\<not> str_contains ALPHABET (str_lower [ch])"
    using str_contains_subset by blast
  then show ?thesis by (simp add: shift_char_def)
qed

text \<open>The rotation enters \<open>_shift_char\<close> only through its residue modulo 26.\<close>

lemma shift_char_cong: "k mod 26 = k' mod 26 \<Longrightarrow> shift_char ch k = shift_char ch k'"
proof -
  assume h: "k mod 26 = k' mod 26"
  have "\<And>idx. (int idx + k) mod 26 = (int idx + k') mod 26"
    using h by (metis mod_add_right_eq)
  then show ?thesis by (simp add: shift_char_def)
qed

lemma join_each_shift_cong:
  "k mod 26 = k' mod 26 \<Longrightarrow>
   join_each (\<lambda>ch. shift_char ch k) x = join_each (\<lambda>ch. shift_char ch k') x"
  by (induction x) (simp_all add: shift_char_cong [of k k'])

subsection \<open>The claims\<close>

text \<open>
  C8. The negative-shift scenario: \<open>encrypt_caesar("Hello, World!", -3)\<close> returns
  exactly \<open>"Ebiil, Tloia!"\<close>: each letter goes back three positions with wrap-around,
  case and punctuation kept.
\<close>

theorem encrypt_caesar_hello_minus_three:
  "encrypt_caesar (py_str ''Hello, World!'') (- 3) = Inr (py_str ''Ebiil, Tloia!'')"
  by (simp add: encrypt_caesar_def py_str_def shift_char_lower shift_char_upper
      shift_char_other)

text \<open>
  C5. Shift normalization: for every string \<open>x\<close> and integer \<open>s\<close>, encrypting with
  \<open>s\<close>, \<open>s + 26\<close> and \<open>s - 26\<close> gives the same outcome, and the rotation applied is the
  non-negative residue \<open>s mod 26\<close>, which lies in \<open>0..25\<close>: the letter at position \<open>i\<close>
  of either alphabet goes to position \<open>(i + s mod 26) mod 26\<close> of the same alphabet.
\<close>

theorem encrypt_caesar_shift_normalization:
  "encrypt_caesar x s = encrypt_caesar x (s + 26)
   \<and> encrypt_caesar x s = encrypt_caesar x (s - 26)
   \<and> encrypt_caesar x s = encrypt_caesar x (s mod 26)
   \<and> 0 \<le> s mod 26 \<and> s mod 26 < 26
   \<and> (\<forall>i<26. encrypt_caesar [97 + i] s = Inr [97 + nat ((int i + s mod 26) mod 26)]
              \<and> encrypt_caesar [65 + i] s = Inr [65 + nat ((int i + s mod 26) mod 26)])"
proof -
  have "encrypt_caesar x s = encrypt_caesar x (s + 26)"
    by (simp add: encrypt_caesar_def)
  moreover have "encrypt_caesar x s = encrypt_caesar x (s - 26)"
    by (simp add: encrypt_caesar_def)
  moreover have "encrypt_caesar x s = encrypt_caesar x (s mod 26)"
    by (simp add: encrypt_caesar_def)
  moreover have "\<forall>i<26. encrypt_caesar [97 + i] s = Inr [97 + nat ((int i + s mod 26) mod 26)]
              \<and> encrypt_caesar [65 + i] s = Inr [65 + nat ((int i + s mod 26) mod 26)]"
    by (simp add: encrypt_caesar_def shift_char_lower shift_char_upper)
  ultimately show ?thesis by simp
qed

theorem encrypt_caesar_shift_normalization_witness:
  "encrypt_caesar (py_str ''Zebra 7'') (- 29) = encrypt_caesar (py_str ''Zebra 7'') (- 3)
   \<and> encrypt_caesar (py_str ''Zebra 7'') (- 29) = encrypt_caesar (py_str ''Zebra 7'') 23
   \<and> encrypt_caesar [97 + 2] (- 29) = Inr [97 + 25]"
proof -
  note n = encrypt_caesar_shift_normalization [of "py_str ''Zebra 7''" "- 29"]
  have a: "encrypt_caesar (py_str ''Zebra 7'') (- 29) = encrypt_caesar (py_str ''Zebra 7'') (- 3)"
    using n [THEN conjunct1] by simp
  have b: "encrypt_caesar (py_str ''Zebra 7'') (- 29) = encrypt_caesar (py_str ''Zebra 7'') 23"
    using n [THEN conjunct2, THEN conjunct2, THEN conjunct1] by simp
  have "\<forall>i<26. encrypt_caesar [97 + i] (- 29)
                  = Inr [97 + nat ((int i + (- 29) mod 26) mod 26)]"
    using n by blast
  then have "encrypt_caesar [97 + 2] (- 29) = Inr [97 + nat ((int 2 + (- 29) mod 26) mod 26)]"
    by (rule allE [where x = 2]) simp
  then have c: "encrypt_caesar [97 + 2] (- 29) = Inr [97 + 25]"
    by simp
  from a b c show ?thesis by (intro conjI)
qed

text \<open>
  C6. Decryption is encryption with the additive inverse rotation: for every string
  \<open>x\<close> and integer \<open>s\<close>, \<open>decrypt_caesar(x, s)\<close> has the outcome of \<open>encrypt_caesar\<close>
  with rotation \<open>(26 - s mod 26) mod 26\<close>, which is that of \<open>encrypt_caesar(x, -s)\<close>.
\<close>

theorem decrypt_caesar_is_encrypt_inverse_rotation:
  "decrypt_caesar x s = encrypt_caesar x ((26 - s mod 26) mod 26)
   \<and> decrypt_caesar x s = encrypt_caesar x (- s)"
proof -
  have a: "(- (s mod 26)) mod 26 = ((26 - s mod 26) mod 26) mod 26 mod 26"
    by (metis minus_mod_self1 mod_mod_trivial)
  have b: "(- (s mod 26)) mod 26 = (- s) mod 26 mod 26"
    by (simp add: mod_minus_eq)
  show ?thesis
    unfolding decrypt_caesar_def encrypt_caesar_def Let_def
    using join_each_shift_cong [OF a, of x] join_each_shift_cong [OF b, of x] by simp
qed

text \<open>
  C2. Totality: the claim is that both operations return a result for every shift and
  every string. The Kelvin sign U+212A lowers to \<open>k\<close>, passes the membership test, is
  not lower case and is not in the upper-case alphabet, so \<open>base.index(ch)\<close> raises
  \<open>ValueError\<close>, whatever the shift.
\<close>

theorem caesar_raises_on_kelvin_sign:
  "encrypt_caesar [0x212A] s = Inl ValueError \<and> decrypt_caesar [0x212A] s = Inl ValueError"
  by (simp add: encrypt_caesar_def decrypt_caesar_def shift_char_kelvin)

text \<open>
  C3. Round trip: the claim is \<open>decrypt_caesar(encrypt_caesar(x, s), s) == x\<close> for every
  string. On \<open>"5 "\<close> followed by the Kelvin sign the encryption raises \<open>ValueError\<close>,
  so nothing is decrypted.
\<close>

theorem caesar_round_trip_raises_on_kelvin_sign:
  "and_then (encrypt_caesar [0x35, 0x20, 0x212A] s) (\<lambda>y. decrypt_caesar y s)
     = Inl ValueError"
  by (simp add: encrypt_caesar_def and_then_def shift_char_kelvin shift_char_other)

text \<open>
  C7. Non-letter identity: the claim is that a character outside \<open>A..Z\<close> and \<open>a..z\<close>
  comes back unchanged. The Kelvin sign U+212A is such a character, and \<open>_shift_char\<close>
  raises \<open>ValueError\<close> on it for every rotation.
\<close>

theorem shift_char_raises_on_kelvin_sign:
  "shift_char 0x212A k = Inl ValueError"
  by (simp add: shift_char_def str_lower_def char_lower_def str_contains_single
      ALPHABET_upt upper_ALPHABET_upt str_islower_def char_is_lower_def char_is_upper_def
      str_index_def str_index_from_upt and_then_def Let_def del: upt_rec_numeral)

end
